theory Spec2Isabelle
  imports Complex_Main
begin

section \<open>Data model\<close>

text \<open>
  The vision service of the medical facility dashboard: \<^verbatim>\<open>detector.py\<close> turns a
  stream of camera frames into a room status, \<^verbatim>\<open>main.py\<close> reports the status to
  the dashboard and asks for a cleaning action once the room has been empty long enough.

  The two status strings \<^verbatim>\<open>"available"\<close> and \<^verbatim>\<open>"occupied"\<close> are the only values
  the status attribute ever holds.
\<close>

datatype status = Available | Occupied

text \<open>
  Points in time (\<^verbatim>\<open>datetime\<close>) are seconds on the wall clock, and Python floats
  (confidence, \<^verbatim>\<open>total_seconds()\<close>) are exact rationals.
\<close>

type_synonym time = rat

text \<open>
  The image pipeline of \<^verbatim>\<open>detect\<close> (grayscale, blur, background subtraction,
  \<^verbatim>\<open>cv2.countNonZero\<close>) is an opaque library computation. A frame is represented
  by the number \<^verbatim>\<open>motion_pixels\<close> that this pipeline yields for it; \<^verbatim>\<open>None\<close>
  is the missing frame.
\<close>

type_synonym frame = int

text \<open>
  The attributes of \<^verbatim>\<open>OccupancyDetector\<close> that its logic reads or writes.
  (\<^verbatim>\<open>bg_subtractor\<close> belongs to the opaque pipeline, \<^verbatim>\<open>previous_frame\<close> is
  written and never read.)
\<close>

record detector =
  motion_threshold :: int
  confidence_threshold :: rat
  current_status :: status
  last_motion_time :: "time option"
  last_status_change :: "time option"
  motion_frames_count :: int
  no_motion_frames_count :: int
  motion_frames_required :: int
  no_motion_frames_required :: int
  occupied_cooldown_seconds :: rat

text \<open>\<^verbatim>\<open>OccupancyDetector.__init__(motion_threshold, confidence_threshold)\<close>.\<close>

definition init_detector :: "int \<Rightarrow> rat \<Rightarrow> detector" where
  "init_detector mt ct =
     \<lparr> motion_threshold = mt,
       confidence_threshold = ct,
       current_status = Available,
       last_motion_time = None,
       last_status_change = None,
       motion_frames_count = 0,
       no_motion_frames_count = 0,
       motion_frames_required = 3,
       no_motion_frames_required = 40,
       occupied_cooldown_seconds = 30 \<rparr>"

text \<open>
  One call of \<^verbatim>\<open>detect\<close> reads \<^verbatim>\<open>datetime.now()\<close> at up to three places: when it
  records motion, when it measures the time spent occupied, and when it records a
  status change. The three readings are inputs of the call.
\<close>

record clock =
  now_motion :: time
  now_cooldown :: time
  now_change :: time

definition instant :: "time \<Rightarrow> clock" where
  "instant t = \<lparr> now_motion = t, now_cooldown = t, now_change = t \<rparr>"

section \<open>The occupancy detector\<close>

text \<open>
  \<^verbatim>\<open>OccupancyDetector.detect\<close>: the result tuple \<^verbatim>\<open>(status, confidence, changed)\<close>
  and the detector after the call.
\<close>

definition detect :: "detector \<Rightarrow> frame option \<Rightarrow> clock \<Rightarrow> (status \<times> rat \<times> bool) \<times> detector" where
  "detect d fr c =
     (case fr of
        None \<Rightarrow> ((current_status d, 0, False), d)
      | Some motion_pixels \<Rightarrow>
          let has_motion = motion_pixels > motion_threshold d;
              d1 = (if has_motion
                    then d\<lparr> last_motion_time := Some (now_motion c),
                           motion_frames_count := motion_frames_count d + 1,
                           no_motion_frames_count := 0 \<rparr>
                    else d\<lparr> motion_frames_count := 0,
                           no_motion_frames_count := no_motion_frames_count d + 1 \<rparr>);
              previous_status = current_status d1;
              (d2, confidence) =
                (if motion_frames_count d1 \<ge> motion_frames_required d1
                 then (d1\<lparr> current_status := Occupied \<rparr>,
                       min 1 (of_int (motion_frames_count d1) / 10))
                 else if no_motion_frames_count d1 \<ge> no_motion_frames_required d1
                 then (if current_status d1 = Occupied \<and> last_status_change d1 \<noteq> None
                       then (let time_in_occupied = now_cooldown c - the (last_status_change d1)
                             in if time_in_occupied < occupied_cooldown_seconds d1
                                then (d1, 1 / 2)
                                else (d1\<lparr> current_status := Available \<rparr>,
                                      min 1 (of_int (no_motion_frames_count d1) / 60)))
                       else (d1\<lparr> current_status := Available \<rparr>,
                             min 1 (of_int (no_motion_frames_count d1) / 60)))
                 else (d1, 1 / 2));
              changed = (current_status d2 \<noteq> previous_status
                         \<and> confidence \<ge> confidence_threshold d2);
              d3 = (if changed then d2\<lparr> last_status_change := Some (now_change c) \<rparr> else d2)
          in ((current_status d3, confidence, changed), d3))"

text \<open>
  \<^verbatim>\<open>should_trigger_cleaning\<close>, with \<^verbatim>\<open>get_time_since_status_change\<close> inlined;
  \<open>now\<close> is the clock reading taken there.
\<close>

definition should_trigger_cleaning :: "detector \<Rightarrow> int \<Rightarrow> time \<Rightarrow> bool" where
  "should_trigger_cleaning d cleaning_timeout_minutes now =
     (if current_status d \<noteq> Available then False
      else case last_status_change d of
             None \<Rightarrow> False
           | Some t \<Rightarrow> now - t \<ge> of_int (cleaning_timeout_minutes * 60))"

text \<open>A sequence of \<^verbatim>\<open>detect\<close> calls: the results in call order and the final detector.\<close>

fun detect_seq :: "detector \<Rightarrow> (frame option \<times> clock) list \<Rightarrow> (status \<times> rat \<times> bool) list \<times> detector" where
  "detect_seq d [] = ([], d)"
| "detect_seq d ((fr, c) # rest) =
     (let (r, d') = detect d fr c;
          (rs, d'') = detect_seq d' rest
      in (r # rs, d''))"

section \<open>The reporting coordinator\<close>

text \<open>
  The attributes of \<^verbatim>\<open>VisionService\<close> that \<^verbatim>\<open>process_frame\<close> reads or writes.
\<close>

record service =
  detector :: detector
  cleaning_timeout_minutes :: int
  cleaning_action_created :: bool
  last_dashboard_status :: "status option"

definition init_service :: "int \<Rightarrow> rat \<Rightarrow> int \<Rightarrow> service" where
  "init_service mt ct timeout =
     \<lparr> detector = init_detector mt ct,
       cleaning_timeout_minutes = timeout,
       cleaning_action_created = False,
       last_dashboard_status = None \<rparr>"

text \<open>The calls made on the dashboard client.\<close>

datatype request = UpdateRoomStatus status | CreateActionItem

text \<open>
  What one tick receives from outside: the captured frame, the clock readings, and the
  answer the dashboard gives to each call if the call is made.
\<close>

record tick =
  frame :: "frame option"
  clk :: clock
  now_cleaning :: time
  update_ok :: bool
  create_ok :: bool

text \<open>
  \<^verbatim>\<open>VisionService.process_frame\<close>: the service after the tick and the requests sent
  during it, in order. (The debug logging has no effect on either.)
\<close>

definition process_frame :: "service \<Rightarrow> tick \<Rightarrow> service \<times> request list" where
  "process_frame s i =
     (case frame i of
        None \<Rightarrow> (s, [])
      | Some _ \<Rightarrow>
          let ((status, confidence, changed), d') = detect (detector s) (frame i) (clk i);
              s1 = s\<lparr> detector := d' \<rparr>;
              (s2, sent1) =
                (if changed
                 then let dashboard_status = (if status = Occupied then Occupied else Available);
                          (sa, sent) =
                            (if Some dashboard_status \<noteq> last_dashboard_status s1
                             then ((if update_ok i
                                    then s1\<lparr> last_dashboard_status := Some dashboard_status \<rparr>
                                    else s1),
                                   [UpdateRoomStatus dashboard_status])
                             else (s1, []));
                          sb = (if status = Occupied
                                then sa\<lparr> cleaning_action_created := False \<rparr>
                                else sa)
                      in (sb, sent)
                 else (s1, []));
              (s3, sent2) =
                (if status = Available \<and> \<not> cleaning_action_created s2
                 then (if should_trigger_cleaning (detector s2) (cleaning_timeout_minutes s2)
                            (now_cleaning i)
                       then ((if create_ok i
                              then s2\<lparr> cleaning_action_created := True \<rparr>
                              else s2),
                             [CreateActionItem])
                       else (s2, []))
                 else (s2, []))
          in (s3, sent1 @ sent2))"

text \<open>The polling loop over a finite sequence of ticks.\<close>

fun run :: "service \<Rightarrow> tick list \<Rightarrow> service \<times> request list" where
  "run s [] = (s, [])"
| "run s (i # rest) =
     (let (s', sent) = process_frame s i;
          (s'', sent') = run s' rest
      in (s'', sent @ sent'))"

section \<open>Traces and scenarios\<close>

text \<open>
  The status list carried by the status-update requests of a trace, in order.
\<close>

fun status_updates :: "request list \<Rightarrow> status list" where
  "status_updates [] = []"
| "status_updates (UpdateRoomStatus st # rs) = st # status_updates rs"
| "status_updates (CreateActionItem # rs) = status_updates rs"

text \<open>
  A tick belongs to an empty period when the status that \<^verbatim>\<open>detect\<close> returns on
  it is \<open>Available\<close>; a tick without a frame is skipped by \<^verbatim>\<open>process_frame\<close> and
  leaves the period as it is.
\<close>

definition available_tick :: "service \<Rightarrow> tick \<Rightarrow> bool" where
  "available_tick s i =
     (case frame i of
        None \<Rightarrow> True
      | Some _ \<Rightarrow> fst (fst (detect (detector s) (frame i) (clk i))) = Available)"

fun stays_available :: "service \<Rightarrow> tick list \<Rightarrow> bool" where
  "stays_available s [] = True"
| "stays_available s (i # rest) =
     (available_tick s i \<and> stays_available (fst (process_frame s i)) rest)"

text \<open>
  Calls and ticks of the scenarios: a frame with 800 moving pixels or with none, all
  clock readings of the call at the instant \<open>t\<close>.
\<close>

definition motion_at :: "time \<Rightarrow> frame option \<times> clock" where
  "motion_at t = (Some 800, instant t)"

definition still_at :: "time \<Rightarrow> frame option \<times> clock" where
  "still_at t = (Some 0, instant t)"

definition still_calls :: "clock list \<Rightarrow> (frame option \<times> clock) list" where
  "still_calls cs = map (\<lambda>c. (Some 0, c)) cs"

definition motion_tick :: "time \<Rightarrow> bool \<Rightarrow> bool \<Rightarrow> tick" where
  "motion_tick t u a =
     \<lparr> frame = Some 800, clk = instant t, now_cleaning = t, update_ok = u, create_ok = a \<rparr>"

definition still_tick :: "time \<Rightarrow> bool \<Rightarrow> bool \<Rightarrow> tick" where
  "still_tick t u a =
     \<lparr> frame = Some 0, clk = instant t, now_cleaning = t, update_ok = u, create_ok = a \<rparr>"

definition missed_tick :: "time \<Rightarrow> tick" where
  "missed_tick t =
     \<lparr> frame = None, clk = instant t, now_cleaning = t, update_ok = True, create_ok = True \<rparr>"

text \<open>
  Two frames per second: motion at 0 s, 0.5 s and 1 s, then forty still frames, the
  last one at 21 s.
\<close>

definition cooldown_calls :: "(frame option \<times> clock) list" where
  "cooldown_calls =
     map (\<lambda>k. motion_at (of_nat k / 2)) [0..<3] @ map (\<lambda>k. still_at (of_nat k / 2)) [3..<43]"

text \<open>
  Motion at -1 s, -0.5 s and 0 s, then forty still frames spread evenly up to 35 s.
\<close>

definition scenario_c_calls :: "(frame option \<times> clock) list" where
  "scenario_c_calls =
     [motion_at (- 1), motion_at (- 1 / 2), motion_at 0]
     @ map (\<lambda>k. still_at (7 * of_nat k / 8)) [1..<41]"

text \<open>
  One tick per second: the room is entered (ticks 0 to 2) and left (still ticks 3 to
  42).
\<close>

definition visit_start :: "tick list" where
  "visit_start =
     map (\<lambda>k. motion_tick (of_nat k) True True) [0..<3]
     @ map (\<lambda>k. still_tick (of_nat k) True True) [3..<42]"

definition visit_ticks :: "tick list" where
  "visit_ticks = visit_start @ [still_tick 42 True True]"

text \<open>
  After the visit the room stays empty; the tick at 342 s is five minutes after the
  last still tick of the visit. Then somebody enters: motion at 343 s and 344 s (and
  at 345 s, the tick examined below), and leaves again: forty still ticks up to 745 s
  and two more, five and ten minutes later.
\<close>

definition reoccupy_ticks :: "tick list" where
  "reoccupy_ticks =
     visit_ticks @ [still_tick 342 True True]
     @ map (\<lambda>k. motion_tick (of_nat k) True True) [343..<345]"

definition second_empty_period :: "tick list" where
  "second_empty_period =
     map (\<lambda>k. still_tick (345 + 10 * of_nat k) True True) [1..<41]
     @ [still_tick 1045 True True, still_tick 1345 True True]"

text \<open>
  Two visits and the start of a third; the dashboard rejects the status update of the
  second entry (ticks 43 to 45).
\<close>

definition retry_ticks :: "tick list" where
  "retry_ticks =
     visit_ticks
     @ map (\<lambda>k. motion_tick (of_nat k) False True) [43..<46]
     @ map (\<lambda>k. still_tick (of_nat k) True True) [46..<86]
     @ map (\<lambda>k. motion_tick (of_nat k) True True) [86..<89]"

text \<open>One visit and the entry of the next, every status update accepted.\<close>

definition delivered_ticks :: "tick list" where
  "delivered_ticks = visit_ticks @ map (\<lambda>k. motion_tick (of_nat k) True True) [43..<46]"

text \<open>The empty room after one visit, polled every 50 s from 342 s on.\<close>

definition empty_period :: "tick list" where
  "empty_period = map (\<lambda>k. still_tick (342 + 50 * of_nat k) True True) [0..<8]"

text \<open>A room that nobody enters, polled every 20 s for ten minutes.\<close>

definition idle_ticks :: "tick list" where
  "idle_ticks = map (\<lambda>k. still_tick (20 * of_nat k) True True) [0..<31]"

text \<open>
  A second visit whose release (the still tick at 85 s) follows a rejected status
  update at 42 s.
\<close>

definition second_visit_ticks :: "tick list" where
  "second_visit_ticks =
     map (\<lambda>k. motion_tick (of_nat k) True True) [43..<46]
     @ map (\<lambda>k. still_tick (of_nat k) True True) [46..<85]"

section \<open>Missing frames\<close>

text \<open>
  C9. For every detector state, \<^verbatim>\<open>detect\<close> on a \<^verbatim>\<open>None\<close> frame returns
  \<open>(current_status, 0.0, False)\<close> and leaves the whole detector state as it was.
\<close>

theorem detect_none_frame:
  "detect d None c = ((current_status d, 0, False), d)"
  by (simp add: detect_def)

section \<open>Confidence and status changes\<close>

text \<open>
  C1. The claim: \<open>current_status\<close> changes on a call only if the confidence computed
  on that call reaches \<open>confidence_threshold\<close>. The code assigns \<open>current_status\<close>
  before it compares the confidence with the threshold: with the default threshold
  0.7, the third motion frame in a row has confidence 0.3, and the call turns
  \<open>current_status\<close> from \<open>Available\<close> into \<open>Occupied\<close> while it returns
  \<open>changed = False\<close>.
\<close>

theorem status_flips_below_threshold:
  "current_status (snd (detect_seq (init_detector 500 (7 / 10)) [motion_at 0, motion_at 1]))
     = Available
   \<and> confidence_threshold (snd (detect_seq (init_detector 500 (7 / 10)) [motion_at 0, motion_at 1]))
     = 7 / 10
   \<and> fst (detect (snd (detect_seq (init_detector 500 (7 / 10)) [motion_at 0, motion_at 1]))
         (Some 800) (instant 2))
     = (Occupied, 3 / 10, False)
   \<and> current_status
        (snd (detect (snd (detect_seq (init_detector 500 (7 / 10)) [motion_at 0, motion_at 1]))
           (Some 800) (instant 2)))
     = Occupied"
  by (simp add: detect_def init_detector_def motion_at_def instant_def Let_def)

section \<open>The cooldown\<close>

text \<open>
  C2. The claim: once \<open>current_status\<close> is \<open>Occupied\<close>, it does not become
  \<open>Available\<close> on a call made less than \<open>occupied_cooldown_seconds\<close> after the
  transition into \<open>Occupied\<close>. The code measures the cooldown from
  \<open>last_status_change\<close>, which the transition of C1 does not set: with the default
  configuration and two frames per second the status becomes \<open>Occupied\<close> on the
  third call (at 1 s) and \<open>Available\<close> on the 43rd call (at 21 s), 20 s later, the
  cooldown being 30 s.
\<close>

theorem available_within_cooldown:
  "map fst (fst (detect_seq (init_detector 500 (7 / 10)) cooldown_calls))
     = replicate 2 Available @ replicate 40 Occupied @ [Available]
   \<and> cooldown_calls ! 2 = motion_at 1
   \<and> cooldown_calls ! 42 = still_at 21
   \<and> (21 :: rat) - 1 < occupied_cooldown_seconds (init_detector 500 (7 / 10))"
  by code_simp

section \<open>Scenario A: three frames with motion\<close>

text \<open>
  With the default confidence threshold 0.7 the third call does not return
  \<open>status = Occupied\<close> together with \<open>changed = True\<close>.
\<close>

theorem scenario_a_default_unchanged:
  "\<not> (fst (last (fst (detect_seq (init_detector 500 (7 / 10))
                      [motion_at 0, motion_at 1, motion_at 2]))) = Occupied
      \<and> snd (snd (last (fst (detect_seq (init_detector 500 (7 / 10))
                      [motion_at 0, motion_at 1, motion_at 2])))) = True)"
  by (simp add: detect_def init_detector_def motion_at_def instant_def Let_def)

text \<open>
  C3, amended. From the initial detector with \<open>motion_threshold = 500\<close>, three
  consecutive calls with 800 moving pixels give, on the third call, the confidence
  0.3, and \<open>changed = True\<close> exactly when \<open>confidence_threshold\<close> is at most 0.3;
  the status returned is then \<open>Occupied\<close>.
\<close>

theorem scenario_a_confidence_gate:
  "snd (last (fst (detect_seq (init_detector 500 ct)
                 [(Some 800, c1), (Some 800, c2), (Some 800, c3)])))
     = (3 / 10, ct \<le> 3 / 10)
   \<and> (ct \<le> 3 / 10 \<longrightarrow>
        fst (last (fst (detect_seq (init_detector 500 ct)
                 [(Some 800, c1), (Some 800, c2), (Some 800, c3)]))) = Occupied)"
  by (simp add: detect_def init_detector_def Let_def)

theorem scenario_a_confidence_gate_witness:
  "(1 / 4 :: rat) \<le> 3 / 10
   \<and> last (fst (detect_seq (init_detector 500 (1 / 4))
                 [motion_at 0, motion_at 1, motion_at 2]))
     = (Occupied, 3 / 10, True)"
proof -
  have low: "(1 / 4 :: rat) \<le> 3 / 10" by simp
  from scenario_a_confidence_gate [of "1 / 4" "instant 0" "instant 1" "instant 2"] low
  show ?thesis
    by (simp add: motion_at_def prod_eq_iff)
qed

section \<open>Scenario C: release after the cooldown\<close>

lemma detect_seq_append:
  "detect_seq d (xs @ ys) =
     (fst (detect_seq d xs) @ fst (detect_seq (snd (detect_seq d xs)) ys),
      snd (detect_seq (snd (detect_seq d xs)) ys))"
  by (induction xs arbitrary: d) (auto simp: split_beta Let_def)

lemma still_call_below_required:
  assumes "0 \<le> motion_threshold d" "0 < motion_frames_required d"
    "no_motion_frames_count d + 1 < no_motion_frames_required d"
  shows "detect d (Some 0) c =
     ((current_status d, 1 / 2, False),
      d\<lparr> motion_frames_count := 0, no_motion_frames_count := no_motion_frames_count d + 1 \<rparr>)"
  using assms by (simp add: detect_def Let_def)

lemma still_calls_state:
  "0 \<le> motion_threshold d \<Longrightarrow> 0 < motion_frames_required d \<Longrightarrow>
   no_motion_frames_count d + int (length cs) < no_motion_frames_required d \<Longrightarrow>
   snd (detect_seq d (still_calls cs)) =
     (if cs = [] then d
      else d\<lparr> motion_frames_count := 0,
              no_motion_frames_count := no_motion_frames_count d + int (length cs) \<rparr>)"
proof (induction cs arbitrary: d)
  case Nil
  then show ?case by (simp add: still_calls_def)
next
  case (Cons c cs)
  let ?d' = "d\<lparr> motion_frames_count := 0, no_motion_frames_count := no_motion_frames_count d + 1 \<rparr>"
  from Cons.prems have step: "detect d (Some 0) c = ((current_status d, 1 / 2, False), ?d')"
    by (intro still_call_below_required) auto
  have "snd (detect_seq ?d' (still_calls cs)) =
     (if cs = [] then ?d'
      else ?d'\<lparr> motion_frames_count := 0,
              no_motion_frames_count := no_motion_frames_count ?d' + int (length cs) \<rparr>)"
    using Cons.prems by (intro Cons.IH) auto
  with step show ?case
    by (simp add: still_calls_def split_beta add.assoc)
qed

lemma release_call:
  assumes "current_status d = Occupied" "no_motion_frames_count d = 39"
    "\<forall>t. last_status_change d = Some t \<longrightarrow> t \<le> 0"
    "0 \<le> motion_threshold d" "motion_frames_required d = 3"
    "no_motion_frames_required d = 40" "occupied_cooldown_seconds d = 30"
    "now_cooldown c = 35"
  shows "fst (detect d (Some 0) c) = (Available, 2 / 3, confidence_threshold d \<le> 2 / 3)"
proof (cases "last_status_change d")
  case None
  with assms show ?thesis by (simp add: detect_def Let_def)
next
  case (Some t)
  with assms have "t \<le> 0" by simp
  with Some assms show ?thesis by (simp add: detect_def Let_def)
qed

text \<open>
  With the default configuration the status becomes \<open>Occupied\<close> on the call at 0 s;
  the fortieth still call after it, at 35 s, returns confidence 2/3 and
  \<open>changed = False\<close>.
\<close>

theorem scenario_c_default_unchanged:
  "fst (fst (detect_seq (init_detector 500 (7 / 10)) scenario_c_calls) ! 2) = Occupied
   \<and> scenario_c_calls ! 2 = motion_at 0
   \<and> last scenario_c_calls = still_at 35
   \<and> \<not> (fst (last (fst (detect_seq (init_detector 500 (7 / 10)) scenario_c_calls))) = Available
        \<and> snd (snd (last (fst (detect_seq (init_detector 500 (7 / 10)) scenario_c_calls)))) = True)"
  by code_simp

text \<open>
  C4, amended. Take a detector that is \<open>Occupied\<close> since time 0: no still frame has
  been counted yet and no status change is recorded later than 0. With the default
  frame counts and the 30 s cooldown, forty consecutive still calls, the last of them
  at 35 s, give on the last call the confidence 40/60, and \<open>changed = True\<close> exactly
  when \<open>confidence_threshold\<close> is at most 2/3; the status returned is then
  \<open>Available\<close>.
\<close>

theorem release_after_cooldown:
  assumes occ: "current_status d = Occupied"
    and fresh: "no_motion_frames_count d = 0"
    and rec: "\<forall>t. last_status_change d = Some t \<longrightarrow> t \<le> 0"
    and thr: "0 \<le> motion_threshold d"
    and dflt: "motion_frames_required d = 3" "no_motion_frames_required d = 40"
      "occupied_cooldown_seconds d = 30"
    and len: "length cs = 39"
    and fin: "now_cooldown c = 35"
  shows "snd (last (fst (detect_seq d (still_calls cs @ [(Some 0, c)]))))
           = (2 / 3, confidence_threshold d \<le> 2 / 3)
       \<and> (confidence_threshold d \<le> 2 / 3 \<longrightarrow>
            fst (last (fst (detect_seq d (still_calls cs @ [(Some 0, c)])))) = Available)"
proof -
  let ?d' = "snd (detect_seq d (still_calls cs))"
  from len have ne: "cs \<noteq> []" by auto
  have d': "?d' = d\<lparr> motion_frames_count := 0, no_motion_frames_count := 39 \<rparr>"
    using still_calls_state[of d cs] thr dflt fresh len ne by simp
  have "fst (detect ?d' (Some 0) c) = (Available, 2 / 3, confidence_threshold ?d' \<le> 2 / 3)"
    by (rule release_call) (use d' occ rec thr dflt fin in simp_all)
  then have "last (fst (detect_seq d (still_calls cs @ [(Some 0, c)])))
      = (Available, 2 / 3, confidence_threshold d \<le> 2 / 3)"
    by (simp add: detect_seq_append split_beta Let_def d')
  then show ?thesis by simp
qed

theorem release_after_cooldown_witness:
  "current_status (snd (detect_seq (init_detector 500 (1 / 4))
       [motion_at (- 1), motion_at (- 1 / 2), motion_at 0])) = Occupied
   \<and> last_status_change (snd (detect_seq (init_detector 500 (1 / 4))
       [motion_at (- 1), motion_at (- 1 / 2), motion_at 0])) = Some 0
   \<and> last (fst (detect_seq
        (snd (detect_seq (init_detector 500 (1 / 4))
           [motion_at (- 1), motion_at (- 1 / 2), motion_at 0]))
        (still_calls (map (\<lambda>k. instant (7 * of_nat k / 8)) [1..<40]) @ [(Some 0, instant 35)])))
     = (Available, 2 / 3, True)"
proof -
  let ?d = "snd (detect_seq (init_detector 500 (1 / 4))
       [motion_at (- 1), motion_at (- 1 / 2), motion_at 0])"
  let ?cs = "map (\<lambda>k. instant (7 * of_nat k / 8)) [1..<40]"
  have d: "?d = \<lparr> motion_threshold = 500, confidence_threshold = 1 / 4,
       current_status = Occupied, last_motion_time = Some 0, last_status_change = Some 0,
       motion_frames_count = 3, no_motion_frames_count = 0, motion_frames_required = 3,
       no_motion_frames_required = 40, occupied_cooldown_seconds = 30 \<rparr>"
    by (simp add: detect_def init_detector_def motion_at_def instant_def Let_def)
  have occ: "current_status ?d = Occupied" and fresh: "no_motion_frames_count ?d = 0"
    and rec: "\<forall>t. last_status_change ?d = Some t \<longrightarrow> t \<le> 0"
    and thr: "0 \<le> motion_threshold ?d"
    and dflt: "motion_frames_required ?d = 3" "no_motion_frames_required ?d = 40"
      "occupied_cooldown_seconds ?d = 30"
    and ct: "confidence_threshold ?d = 1 / 4" and lsc: "last_status_change ?d = Some 0"
    unfolding d by simp_all
  have len: "length ?cs = 39" by simp
  have fin: "now_cooldown (instant 35) = 35" by (simp add: instant_def)
  from release_after_cooldown [OF occ fresh rec thr dflt len fin] ct
  have "last (fst (detect_seq ?d (still_calls ?cs @ [(Some 0, instant 35)])))
      = (Available, 2 / 3, True)"
    by (simp add: prod_eq_iff)
  with occ lsc show ?thesis by simp
qed

section \<open>One tick of the coordinator\<close>

lemma status_updates_append:
  "status_updates (xs @ ys) = status_updates xs @ status_updates ys"
  by (induction xs rule: status_updates.induct) auto

lemma detect_status_field:
  "current_status (snd (detect d fr c)) = fst (fst (detect d fr c))"
  by (auto simp: detect_def Let_def split: option.splits)

lemma detect_missing_frame: "snd (detect d None c) = d"
  by (simp add: detect_def)

lemma process_frame_detector:
  "detector (fst (process_frame s i)) = snd (detect (detector s) (frame i) (clk i))"
  by (auto simp: process_frame_def detect_missing_frame Let_def
      split: option.splits prod.splits)

lemma process_frame_timeout:
  "cleaning_timeout_minutes (fst (process_frame s i)) = cleaning_timeout_minutes s"
  by (auto simp: process_frame_def Let_def split: option.splits prod.splits if_splits)

lemma run_timeout:
  "cleaning_timeout_minutes (fst (run s ticks)) = cleaning_timeout_minutes s"
  by (induction ticks arbitrary: s) (simp_all add: split_beta Let_def process_frame_timeout)

lemma run_append:
  "run s (xs @ ys) =
     (fst (run (fst (run s xs)) ys), snd (run s xs) @ snd (run (fst (run s xs)) ys))"
  by (induction xs arbitrary: s) (simp_all add: split_beta)

lemma not_in_list_count: "x \<notin> set xs \<Longrightarrow> count_list xs x = 0"
  by (induction xs) auto

section \<open>The cleaning flag and re-occupation\<close>

text \<open>
  C5. The claim: on every tick on which the detector's status turns \<open>Occupied\<close>, the
  flag \<open>cleaning_action_created\<close> is reset, so that the next empty period can trigger
  one cleaning action. \<^verbatim>\<open>process_frame\<close> resets the flag under \<^verbatim>\<open>if changed\<close>, and
  \<^verbatim>\<open>detect\<close> returns \<open>changed = False\<close> on the transition of C1. With the confidence
  threshold 0.5: after a first visit and a cleaning action the flag is set; at 345 s
  the status turns from \<open>Available\<close> into \<open>Occupied\<close> and the flag stays set; the
  empty period that follows, more than ten minutes long, sends no cleaning action.
\<close>

theorem reoccupied_flag_not_reset:
  "snd (run (init_service 500 (1 / 2) 5) reoccupy_ticks)
     = [UpdateRoomStatus Available, CreateActionItem]
   \<and> current_status (detector (fst (run (init_service 500 (1 / 2) 5) reoccupy_ticks)))
     = Available
   \<and> cleaning_action_created (fst (run (init_service 500 (1 / 2) 5) reoccupy_ticks))
   \<and> current_status (detector (fst (run (init_service 500 (1 / 2) 5)
        (reoccupy_ticks @ [motion_tick 345 True True]))))
     = Occupied
   \<and> cleaning_action_created (fst (run (init_service 500 (1 / 2) 5)
        (reoccupy_ticks @ [motion_tick 345 True True])))
   \<and> current_status (detector (fst (run (init_service 500 (1 / 2) 5)
        (reoccupy_ticks @ [motion_tick 345 True True] @ second_empty_period))))
     = Available
   \<and> snd (run (init_service 500 (1 / 2) 5)
        (reoccupy_ticks @ [motion_tick 345 True True] @ second_empty_period))
     = [UpdateRoomStatus Available, CreateActionItem]"
proof -
  have visit: "run (init_service 500 (1 / 2) 5) reoccupy_ticks =
      (\<lparr> detector = \<lparr> motion_threshold = 500, confidence_threshold = 1 / 2,
            current_status = Available, last_motion_time = Some 344,
            last_status_change = Some 42, motion_frames_count = 2,
            no_motion_frames_count = 0, motion_frames_required = 3,
            no_motion_frames_required = 40, occupied_cooldown_seconds = 30 \<rparr>,
          cleaning_timeout_minutes = 5, cleaning_action_created = True,
          last_dashboard_status = Some Available \<rparr>,
       [UpdateRoomStatus Available, CreateActionItem])"
    by code_simp
  have entry: "run \<lparr> detector = \<lparr> motion_threshold = 500, confidence_threshold = 1 / 2,
            current_status = Available, last_motion_time = Some 344,
            last_status_change = Some 42, motion_frames_count = 2,
            no_motion_frames_count = 0, motion_frames_required = 3,
            no_motion_frames_required = 40, occupied_cooldown_seconds = 30 \<rparr>,
          cleaning_timeout_minutes = 5, cleaning_action_created = True,
          last_dashboard_status = Some Available \<rparr> [motion_tick 345 True True] =
      (\<lparr> detector = \<lparr> motion_threshold = 500, confidence_threshold = 1 / 2,
            current_status = Occupied, last_motion_time = Some 345,
            last_status_change = Some 42, motion_frames_count = 3,
            no_motion_frames_count = 0, motion_frames_required = 3,
            no_motion_frames_required = 40, occupied_cooldown_seconds = 30 \<rparr>,
          cleaning_timeout_minutes = 5, cleaning_action_created = True,
          last_dashboard_status = Some Available \<rparr>,
       [])"
    by code_simp
  have empty: "run \<lparr> detector = \<lparr> motion_threshold = 500, confidence_threshold = 1 / 2,
            current_status = Occupied, last_motion_time = Some 345,
            last_status_change = Some 42, motion_frames_count = 3,
            no_motion_frames_count = 0, motion_frames_required = 3,
            no_motion_frames_required = 40, occupied_cooldown_seconds = 30 \<rparr>,
          cleaning_timeout_minutes = 5, cleaning_action_created = True,
          last_dashboard_status = Some Available \<rparr> second_empty_period =
      (\<lparr> detector = \<lparr> motion_threshold = 500, confidence_threshold = 1 / 2,
            current_status = Available, last_motion_time = Some 345,
            last_status_change = Some 745, motion_frames_count = 0,
            no_motion_frames_count = 42, motion_frames_required = 3,
            no_motion_frames_required = 40, occupied_cooldown_seconds = 30 \<rparr>,
          cleaning_timeout_minutes = 5, cleaning_action_created = True,
          last_dashboard_status = Some Available \<rparr>,
       [])"
    by code_simp
  show ?thesis
    unfolding run_append visit entry empty fst_conv snd_conv by simp
qed

section \<open>One cleaning action per empty period\<close>

lemma create_at_most_once_per_tick:
  "count_list (snd (process_frame s i)) CreateActionItem \<le> 1"
  by (auto simp: process_frame_def Let_def split: option.splits prod.splits)

lemma create_success_sets_flag:
  "create_ok i \<Longrightarrow> CreateActionItem \<in> set (snd (process_frame s i)) \<Longrightarrow>
   cleaning_action_created (fst (process_frame s i))"
  by (auto simp: process_frame_def Let_def split: option.splits prod.splits if_splits)

lemma flag_kept_while_available:
  "cleaning_action_created s \<Longrightarrow> available_tick s i \<Longrightarrow>
   cleaning_action_created (fst (process_frame s i))
   \<and> CreateActionItem \<notin> set (snd (process_frame s i))"
  by (auto simp: process_frame_def available_tick_def Let_def
      split: option.splits prod.splits if_splits)

lemma flagged_run_creates_nothing:
  "cleaning_action_created s \<Longrightarrow> stays_available s ticks \<Longrightarrow>
   CreateActionItem \<notin> set (snd (run s ticks))"
proof (induction ticks arbitrary: s)
  case Nil
  then show ?case by simp
next
  case (Cons i rest)
  from Cons.prems have av: "available_tick s i"
    and rest: "stays_available (fst (process_frame s i)) rest"
    by simp_all
  from flag_kept_while_available[OF Cons.prems(1) av]
  have f: "cleaning_action_created (fst (process_frame s i))"
    and n: "CreateActionItem \<notin> set (snd (process_frame s i))" by simp_all
  from Cons.IH[OF f rest] n show ?case
    by (simp add: split_beta)
qed

text \<open>
  C6. Over a run of ticks on which the status is \<open>Available\<close> throughout (one empty
  period), and on which the dashboard accepts every action-creation call, the
  coordinator sends at most one action-creation request, however long the run is.
\<close>

theorem cleaning_requested_once:
  assumes "\<forall>i \<in> set ticks. create_ok i" and "stays_available s ticks"
  shows "count_list (snd (run s ticks)) CreateActionItem \<le> 1"
  using assms
proof (induction ticks arbitrary: s)
  case Nil
  then show ?case by simp
next
  case (Cons i rest)
  let ?s' = "fst (process_frame s i)"
  from Cons.prems have ok: "create_ok i" and oks: "\<forall>j \<in> set rest. create_ok j"
    and rest: "stays_available ?s' rest" by simp_all
  have split: "count_list (snd (run s (i # rest))) CreateActionItem
      = count_list (snd (process_frame s i)) CreateActionItem
        + count_list (snd (run ?s' rest)) CreateActionItem"
    by (simp add: split_beta)
  show ?case
  proof (cases "CreateActionItem \<in> set (snd (process_frame s i))")
    case True
    then have "cleaning_action_created ?s'"
      using ok by (rule create_success_sets_flag[rotated])
    then have "CreateActionItem \<notin> set (snd (run ?s' rest))"
      using rest by (rule flagged_run_creates_nothing)
    then have "count_list (snd (run ?s' rest)) CreateActionItem = 0"
      by (rule not_in_list_count)
    with split create_at_most_once_per_tick[of s i] show ?thesis by simp
  next
    case False
    then have "count_list (snd (process_frame s i)) CreateActionItem = 0"
      by (rule not_in_list_count)
    with split Cons.IH[OF oks rest] show ?thesis by simp
  qed
qed

text \<open>
  The empty room after one visit, polled for six minutes past the cleaning timeout:
  the action is requested (at 342 s) and not requested again.
\<close>

theorem cleaning_requested_once_witness:
  "list_all create_ok empty_period
   \<and> stays_available (fst (run (init_service 500 (1 / 2) 5) visit_ticks)) empty_period
   \<and> CreateActionItem
       \<in> set (snd (run (fst (run (init_service 500 (1 / 2) 5) visit_ticks)) empty_period))
   \<and> count_list (snd (run (fst (run (init_service 500 (1 / 2) 5) visit_ticks)) empty_period))
       CreateActionItem \<le> 1"
proof -
  let ?s = "fst (run (init_service 500 (1 / 2) 5) visit_ticks)"
  have visit: "run (init_service 500 (1 / 2) 5) visit_ticks =
      (\<lparr> detector = \<lparr> motion_threshold = 500, confidence_threshold = 1 / 2,
            current_status = Available, last_motion_time = Some 2,
            last_status_change = Some 42, motion_frames_count = 0,
            no_motion_frames_count = 40, motion_frames_required = 3,
            no_motion_frames_required = 40, occupied_cooldown_seconds = 30 \<rparr>,
          cleaning_timeout_minutes = 5, cleaning_action_created = False,
          last_dashboard_status = Some Available \<rparr>,
       [UpdateRoomStatus Available])"
    by code_simp
  have ok: "list_all create_ok empty_period" by code_simp
  have av: "stays_available ?s empty_period"
    unfolding visit fst_conv by code_simp
  have sent: "CreateActionItem \<in> set (snd (run ?s empty_period))"
    unfolding visit fst_conv by code_simp
  from ok have "\<forall>i \<in> set empty_period. create_ok i" by (simp add: list_all_iff)
  from cleaning_requested_once [OF this av] ok av sent show ?thesis by blast
qed

section \<open>Failed dashboard calls\<close>

lemma failed_update_keeps_status:
  "\<not> update_ok i \<Longrightarrow>
   last_dashboard_status (fst (process_frame s i)) = last_dashboard_status s"
  by (auto simp: process_frame_def Let_def split: option.splits prod.splits if_splits)

lemma failed_create_keeps_flag:
  "\<not> create_ok i \<Longrightarrow> CreateActionItem \<in> set (snd (process_frame s i)) \<Longrightarrow>
   \<not> cleaning_action_created s \<and> \<not> cleaning_action_created (fst (process_frame s i))"
  by (auto simp: process_frame_def Let_def split: option.splits prod.splits if_splits)

lemma update_sent_differs:
  "UpdateRoomStatus st \<in> set (snd (process_frame s i)) \<Longrightarrow>
   Some st \<noteq> last_dashboard_status s"
  by (auto simp: process_frame_def Let_def split: option.splits prod.splits if_splits)

lemma update_sent_when_due:
  assumes "frame j \<noteq> None"
    and "fst (detect (detector s) (frame j) (clk j)) = (st, conf, True)"
    and "Some st \<noteq> last_dashboard_status s"
  shows "UpdateRoomStatus st \<in> set (snd (process_frame s j))"
proof -
  obtain d' where "detect (detector s) (frame j) (clk j) = ((st, conf, True), d')"
    using assms(2) by (cases "detect (detector s) (frame j) (clk j)") auto
  with assms(1,3) show ?thesis
    by (cases st) (auto simp: process_frame_def Let_def split: option.splits)
qed

lemma create_sent_when_due:
  assumes "frame j \<noteq> None"
    and "fst (fst (detect (detector s) (frame j) (clk j))) = Available"
    and "\<not> cleaning_action_created s"
    and "should_trigger_cleaning (snd (detect (detector s) (frame j) (clk j)))
           (cleaning_timeout_minutes s) (now_cleaning j)"
  shows "CreateActionItem \<in> set (snd (process_frame s j))"
proof -
  obtain conf ch d' where "detect (detector s) (frame j) (clk j) = ((Available, conf, ch), d')"
    using assms(2) by (cases "detect (detector s) (frame j) (clk j)") auto
  with assms(1,3,4) show ?thesis
    by (auto simp: process_frame_def Let_def split: option.splits)
qed

lemma quiet_tick_keeps_status:
  "status_updates (snd (process_frame s i)) = [] \<Longrightarrow>
   last_dashboard_status (fst (process_frame s i)) = last_dashboard_status s"
  by (auto simp: process_frame_def Let_def status_updates_append
      split: option.splits prod.splits if_splits)

lemma quiet_run_keeps_status:
  "status_updates (snd (run s ticks)) = [] \<Longrightarrow>
   last_dashboard_status (fst (run s ticks)) = last_dashboard_status s"
proof (induction ticks arbitrary: s)
  case Nil
  then show ?case by simp
next
  case (Cons i rest)
  from Cons.prems have a: "status_updates (snd (process_frame s i)) = []"
    and b: "status_updates (snd (run (fst (process_frame s i)) rest)) = []"
    by (simp_all add: split_beta status_updates_append)
  from Cons.IH[OF b] quiet_tick_keeps_status[OF a] show ?case
    by (simp add: split_beta)
qed

lemma quiet_tick_keeps_flag_clear:
  "\<not> cleaning_action_created s \<Longrightarrow> CreateActionItem \<notin> set (snd (process_frame s i)) \<Longrightarrow>
   \<not> cleaning_action_created (fst (process_frame s i))"
  by (auto simp: process_frame_def Let_def split: option.splits prod.splits if_splits)

lemma quiet_run_keeps_flag_clear:
  "\<not> cleaning_action_created s \<Longrightarrow> CreateActionItem \<notin> set (snd (run s ticks)) \<Longrightarrow>
   \<not> cleaning_action_created (fst (run s ticks))"
proof (induction ticks arbitrary: s)
  case Nil
  then show ?case by simp
next
  case (Cons i rest)
  from Cons.prems(2) have a: "CreateActionItem \<notin> set (snd (process_frame s i))"
    and b: "CreateActionItem \<notin> set (snd (run (fst (process_frame s i)) rest))"
    by (simp_all add: split_beta)
  from Cons.IH[OF quiet_tick_keeps_flag_clear[OF Cons.prems(1) a] b] show ?case
    by (simp add: split_beta)
qed

text \<open>
  C7. A failed dashboard call leaves the coordinator's flag as it was, and the request
  is sent again on the next tick that is due for it:
  \<^item> a tick whose status update fails leaves \<open>last_dashboard_status\<close> at its value
    before the tick;
  \<^item> a tick whose action creation fails had \<open>cleaning_action_created\<close> false before
    the tick and leaves it false;
  \<^item> after a failed status update for \<open>st\<close> and ticks that send no status update, a
    tick on which \<^verbatim>\<open>detect\<close> reports a change to \<open>st\<close> sends the update for \<open>st\<close>
    again;
  \<^item> after a failed action creation and ticks that send no action creation, a tick
    with status \<open>Available\<close> on which \<^verbatim>\<open>should_trigger_cleaning\<close> holds sends the
    action creation again.
\<close>

theorem failed_call_keeps_flag:
  "(\<not> update_ok i \<longrightarrow>
      last_dashboard_status (fst (process_frame s i)) = last_dashboard_status s)
   \<and> (\<not> create_ok i \<and> CreateActionItem \<in> set (snd (process_frame s i)) \<longrightarrow>
        \<not> cleaning_action_created s \<and> \<not> cleaning_action_created (fst (process_frame s i)))
   \<and> (\<not> update_ok i \<and> UpdateRoomStatus st \<in> set (snd (process_frame s i))
        \<and> status_updates (snd (run (fst (process_frame s i)) mid)) = []
        \<and> frame j \<noteq> None
        \<and> fst (detect (detector (fst (run s (i # mid)))) (frame j) (clk j)) = (st, conf, True)
      \<longrightarrow> UpdateRoomStatus st \<in> set (snd (process_frame (fst (run s (i # mid))) j)))
   \<and> (\<not> create_ok i \<and> CreateActionItem \<in> set (snd (process_frame s i))
        \<and> CreateActionItem \<notin> set (snd (run (fst (process_frame s i)) mid))
        \<and> frame j \<noteq> None
        \<and> fst (fst (detect (detector (fst (run s (i # mid)))) (frame j) (clk j))) = Available
        \<and> should_trigger_cleaning
            (snd (detect (detector (fst (run s (i # mid)))) (frame j) (clk j)))
            (cleaning_timeout_minutes s) (now_cleaning j)
      \<longrightarrow> CreateActionItem \<in> set (snd (process_frame (fst (run s (i # mid))) j)))"
proof -
  let ?s' = "fst (process_frame s i)"
  let ?t = "fst (run s (i # mid))"
  have t: "?t = fst (run ?s' mid)" by (simp add: split_beta)
  have update_again: "UpdateRoomStatus st \<in> set (snd (process_frame ?t j))"
    if "\<not> update_ok i" "UpdateRoomStatus st \<in> set (snd (process_frame s i))"
      "status_updates (snd (run ?s' mid)) = []" "frame j \<noteq> None"
      "fst (detect (detector ?t) (frame j) (clk j)) = (st, conf, True)"
  proof -
    have "last_dashboard_status ?t = last_dashboard_status s"
      unfolding t
      using quiet_run_keeps_status[OF that(3)] failed_update_keeps_status[OF that(1)]
      by simp
    with update_sent_differs[OF that(2)] have "Some st \<noteq> last_dashboard_status ?t" by simp
    with that(4,5) show ?thesis by (intro update_sent_when_due)
  qed
  have create_again: "CreateActionItem \<in> set (snd (process_frame ?t j))"
    if "\<not> create_ok i" "CreateActionItem \<in> set (snd (process_frame s i))"
      "CreateActionItem \<notin> set (snd (run ?s' mid))" "frame j \<noteq> None"
      "fst (fst (detect (detector ?t) (frame j) (clk j))) = Available"
      "should_trigger_cleaning (snd (detect (detector ?t) (frame j) (clk j)))
         (cleaning_timeout_minutes s) (now_cleaning j)"
  proof -
    from failed_create_keeps_flag[OF that(1,2)] have "\<not> cleaning_action_created ?s'" by simp
    then have clear: "\<not> cleaning_action_created ?t"
      using that(3) unfolding t by (rule quiet_run_keeps_flag_clear)
    have "cleaning_timeout_minutes ?t = cleaning_timeout_minutes s"
      unfolding t by (simp add: run_timeout process_frame_timeout)
    with that(6) have "should_trigger_cleaning (snd (detect (detector ?t) (frame j) (clk j)))
         (cleaning_timeout_minutes ?t) (now_cleaning j)" by simp
    with that(4,5) clear show ?thesis by (intro create_sent_when_due)
  qed
  show ?thesis
  proof (intro conjI impI)
    assume "\<not> update_ok i"
    then show "last_dashboard_status ?s' = last_dashboard_status s"
      by (rule failed_update_keeps_status)
  next
    assume "\<not> create_ok i \<and> CreateActionItem \<in> set (snd (process_frame s i))"
    then show "\<not> cleaning_action_created s" and "\<not> cleaning_action_created ?s'"
      using failed_create_keeps_flag[of i s] by simp_all
  next
    assume "\<not> update_ok i \<and> UpdateRoomStatus st \<in> set (snd (process_frame s i))
        \<and> status_updates (snd (run ?s' mid)) = []
        \<and> frame j \<noteq> None
        \<and> fst (detect (detector ?t) (frame j) (clk j)) = (st, conf, True)"
    then show "UpdateRoomStatus st \<in> set (snd (process_frame ?t j))"
      by (elim conjE) (rule update_again)
  next
    assume "\<not> create_ok i \<and> CreateActionItem \<in> set (snd (process_frame s i))
        \<and> CreateActionItem \<notin> set (snd (run ?s' mid))
        \<and> frame j \<noteq> None
        \<and> fst (fst (detect (detector ?t) (frame j) (clk j))) = Available
        \<and> should_trigger_cleaning
            (snd (detect (detector ?t) (frame j) (clk j)))
            (cleaning_timeout_minutes s) (now_cleaning j)"
    then show "CreateActionItem \<in> set (snd (process_frame ?t j))"
      by (elim conjE) (rule create_again)
  qed
qed

text \<open>
  With the confidence threshold 0.5: the status update of the first release (42 s) is
  rejected and sent again at the second release (85 s); the action creation at 342 s
  is rejected and sent again at 344 s, the tick at 343 s having no frame.
\<close>

theorem failed_call_keeps_flag_witness:
  "\<not> update_ok (still_tick 42 False True)
   \<and> UpdateRoomStatus Available
       \<in> set (snd (process_frame (fst (run (init_service 500 (1 / 2) 5) visit_start))
             (still_tick 42 False True)))
   \<and> last_dashboard_status
        (fst (process_frame (fst (run (init_service 500 (1 / 2) 5) visit_start))
             (still_tick 42 False True)))
     = last_dashboard_status (fst (run (init_service 500 (1 / 2) 5) visit_start))
   \<and> UpdateRoomStatus Available
       \<in> set (snd (process_frame
             (fst (run (fst (run (init_service 500 (1 / 2) 5) visit_start))
                (still_tick 42 False True # second_visit_ticks)))
             (still_tick 85 True True)))
   \<and> \<not> create_ok (still_tick 342 True False)
   \<and> CreateActionItem
       \<in> set (snd (process_frame (fst (run (init_service 500 (1 / 2) 5) visit_ticks))
             (still_tick 342 True False)))
   \<and> \<not> cleaning_action_created
        (fst (process_frame (fst (run (init_service 500 (1 / 2) 5) visit_ticks))
             (still_tick 342 True False)))
   \<and> CreateActionItem
       \<in> set (snd (process_frame
             (fst (run (fst (run (init_service 500 (1 / 2) 5) visit_ticks))
                (still_tick 342 True False # [missed_tick 343])))
             (still_tick 344 True True)))"
proof -
  let ?su = "fst (run (init_service 500 (1 / 2) 5) visit_start)"
  let ?iu = "still_tick 42 False True"
  let ?ju = "still_tick 85 True True"
  let ?sc = "fst (run (init_service 500 (1 / 2) 5) visit_ticks)"
  let ?ic = "still_tick 342 True False"
  let ?jc = "still_tick 344 True True"
  have start: "run (init_service 500 (1 / 2) 5) visit_start =
      (\<lparr> detector = \<lparr> motion_threshold = 500, confidence_threshold = 1 / 2,
            current_status = Occupied, last_motion_time = Some 2,
            last_status_change = None, motion_frames_count = 0,
            no_motion_frames_count = 39, motion_frames_required = 3,
            no_motion_frames_required = 40, occupied_cooldown_seconds = 30 \<rparr>,
          cleaning_timeout_minutes = 5, cleaning_action_created = False,
          last_dashboard_status = None \<rparr>,
       [])"
    by code_simp
  have visit: "run (init_service 500 (1 / 2) 5) visit_ticks =
      (\<lparr> detector = \<lparr> motion_threshold = 500, confidence_threshold = 1 / 2,
            current_status = Available, last_motion_time = Some 2,
            last_status_change = Some 42, motion_frames_count = 0,
            no_motion_frames_count = 40, motion_frames_required = 3,
            no_motion_frames_required = 40, occupied_cooldown_seconds = 30 \<rparr>,
          cleaning_timeout_minutes = 5, cleaning_action_created = False,
          last_dashboard_status = Some Available \<rparr>,
       [UpdateRoomStatus Available])"
    by code_simp
  have u1: "\<not> update_ok ?iu" by (simp add: still_tick_def)
  have u2: "UpdateRoomStatus Available \<in> set (snd (process_frame ?su ?iu))"
    unfolding start fst_conv by code_simp
  have u3: "status_updates (snd (run (fst (process_frame ?su ?iu)) second_visit_ticks)) = []"
    unfolding start fst_conv by code_simp
  have u4: "frame ?ju \<noteq> None" by (simp add: still_tick_def)
  have u5: "fst (detect (detector (fst (run ?su (?iu # second_visit_ticks))))
      (frame ?ju) (clk ?ju)) = (Available, 2 / 3, True)"
    unfolding start fst_conv by code_simp
  have c1: "\<not> create_ok ?ic" by (simp add: still_tick_def)
  have c2: "CreateActionItem \<in> set (snd (process_frame ?sc ?ic))"
    unfolding visit fst_conv by code_simp
  have c3: "CreateActionItem \<notin> set (snd (run (fst (process_frame ?sc ?ic)) [missed_tick 343]))"
    unfolding visit fst_conv by code_simp
  have c4: "frame ?jc \<noteq> None" by (simp add: still_tick_def)
  have c5: "fst (fst (detect (detector (fst (run ?sc (?ic # [missed_tick 343]))))
      (frame ?jc) (clk ?jc))) = Available"
    unfolding visit fst_conv by code_simp
  have c6: "should_trigger_cleaning
      (snd (detect (detector (fst (run ?sc (?ic # [missed_tick 343])))) (frame ?jc) (clk ?jc)))
      (cleaning_timeout_minutes ?sc) (now_cleaning ?jc)"
    unfolding visit fst_conv by code_simp
  note update_part = failed_call_keeps_flag
    [where s = "?su" and i = "?iu" and mid = second_visit_ticks and j = "?ju"
       and st = Available and conf = "2 / 3"]
  note create_part = failed_call_keeps_flag
    [where s = "?sc" and i = "?ic" and mid = "[missed_tick 343]" and j = "?jc"]
  from update_part u1 u2 u3 u4 u5
  have kept: "last_dashboard_status (fst (process_frame ?su ?iu)) = last_dashboard_status ?su"
    and again: "UpdateRoomStatus Available
       \<in> set (snd (process_frame (fst (run ?su (?iu # second_visit_ticks))) ?ju))"
    by blast+
  from create_part c1 c2 c3 c4 c5 c6
  have clear: "\<not> cleaning_action_created (fst (process_frame ?sc ?ic))"
    and created_again: "CreateActionItem
       \<in> set (snd (process_frame (fst (run ?sc (?ic # [missed_tick 343]))) ?jc))"
    by blast+
  from u1 u2 kept again c1 c2 clear created_again show ?thesis
    by (intro conjI)
qed

section \<open>No repeated status update\<close>

lemma update_per_tick:
  "update_ok i \<Longrightarrow>
   (status_updates (snd (process_frame s i)) = []
      \<and> last_dashboard_status (fst (process_frame s i)) = last_dashboard_status s)
   \<or> (\<exists>st. status_updates (snd (process_frame s i)) = [st]
        \<and> Some st \<noteq> last_dashboard_status s
        \<and> last_dashboard_status (fst (process_frame s i)) = Some st)"
  by (auto simp: process_frame_def Let_def split: option.splits prod.splits if_splits)

lemma updates_differ_from_last_sent:
  "\<forall>i \<in> set ticks. update_ok i \<Longrightarrow>
   distinct_adj (status_updates (snd (run s ticks)))
   \<and> (status_updates (snd (run s ticks)) \<noteq> [] \<longrightarrow>
        Some (hd (status_updates (snd (run s ticks)))) \<noteq> last_dashboard_status s)"
proof (induction ticks arbitrary: s)
  case Nil
  then show ?case by simp
next
  case (Cons i rest)
  let ?s' = "fst (process_frame s i)"
  let ?us = "status_updates (snd (run ?s' rest))"
  from Cons.prems have ok: "update_ok i" and oks: "\<forall>j \<in> set rest. update_ok j"
    by simp_all
  have unfold: "status_updates (snd (run s (i # rest)))
      = status_updates (snd (process_frame s i)) @ ?us"
    by (simp add: split_beta status_updates_append)
  from Cons.IH[OF oks, of ?s'] have d: "distinct_adj ?us"
    and h: "?us \<noteq> [] \<Longrightarrow> Some (hd ?us) \<noteq> last_dashboard_status ?s'" by simp_all
  from update_per_tick[OF ok, of s] show ?case
  proof
    assume "status_updates (snd (process_frame s i)) = []
      \<and> last_dashboard_status ?s' = last_dashboard_status s"
    with unfold d h show ?thesis by auto
  next
    assume "\<exists>st. status_updates (snd (process_frame s i)) = [st]
        \<and> Some st \<noteq> last_dashboard_status s
        \<and> last_dashboard_status ?s' = Some st"
    then obtain st where "status_updates (snd (process_frame s i)) = [st]"
      "Some st \<noteq> last_dashboard_status s" "last_dashboard_status ?s' = Some st" by blast
    with unfold d h show ?thesis by (auto simp: distinct_adj_Cons)
  qed
qed

text \<open>
  With the confidence threshold 0.25 every transition is reported. The dashboard
  rejects the update of the second entry; the second release is not sent (the
  dashboard already holds \<open>Available\<close>), and the third entry sends \<open>Occupied\<close>
  again: two consecutive status-update requests carry the same status.
\<close>

theorem repeated_update_after_failure:
  "status_updates (snd (run (init_service 500 (1 / 4) 5) retry_ticks))
     = [Occupied, Available, Occupied, Occupied]
   \<and> \<not> distinct_adj (status_updates (snd (run (init_service 500 (1 / 4) 5) retry_ticks)))"
proof -
  have "status_updates (snd (run (init_service 500 (1 / 4) 5) retry_ticks))
     = [Occupied, Available, Occupied, Occupied]"
    by code_simp
  then show ?thesis by simp
qed

text \<open>
  C8, amended. Over every execution in which the dashboard accepts each status update,
  the coordinator never sends two consecutive status-update requests with the same
  status, also when several ticks report \<open>changed = True\<close> for the same status.
\<close>

theorem no_repeated_update_when_delivered:
  "\<forall>i \<in> set ticks. update_ok i \<Longrightarrow> distinct_adj (status_updates (snd (run s ticks)))"
  using updates_differ_from_last_sent by blast

theorem no_repeated_update_when_delivered_witness:
  "list_all update_ok delivered_ticks
   \<and> status_updates (snd (run (init_service 500 (1 / 4) 5) delivered_ticks))
     = [Occupied, Available, Occupied]
   \<and> distinct_adj (status_updates (snd (run (init_service 500 (1 / 4) 5) delivered_ticks)))"
proof -
  have ok: "list_all update_ok delivered_ticks" by code_simp
  have sent: "status_updates (snd (run (init_service 500 (1 / 4) 5) delivered_ticks))
     = [Occupied, Available, Occupied]" by code_simp
  from ok have "\<forall>i \<in> set delivered_ticks. update_ok i" by (simp add: list_all_iff)
  from no_repeated_update_when_delivered [OF this, of "init_service 500 (1 / 4) 5"] ok sent
  show ?thesis by blast
qed

section \<open>A room that was never occupied\<close>

lemma detect_no_change_recorded:
  "current_status d = Available \<Longrightarrow> last_status_change d = None \<Longrightarrow>
   fst (fst (detect d fr c)) = Available \<Longrightarrow>
   last_status_change (snd (detect d fr c)) = None \<and> \<not> snd (snd (fst (detect d fr c)))"
  by (auto simp: detect_def Let_def split: option.splits if_splits)

lemma never_changed_no_cleaning:
  "last_status_change d = None \<Longrightarrow> \<not> should_trigger_cleaning d timeout now"
  by (simp add: should_trigger_cleaning_def)

lemma unchanged_tick:
  assumes "current_status (detector s) = Available" "last_status_change (detector s) = None"
    "available_tick s i"
  shows "current_status (detector (fst (process_frame s i))) = Available
       \<and> last_status_change (detector (fst (process_frame s i))) = None
       \<and> CreateActionItem \<notin> set (snd (process_frame s i))"
proof (cases "frame i")
  case None
  with assms show ?thesis by (simp add: process_frame_def)
next
  case (Some m)
  with assms(3) have av: "fst (fst (detect (detector s) (frame i) (clk i))) = Available"
    by (simp add: available_tick_def)
  from detect_no_change_recorded[OF assms(1,2) av]
  have l: "last_status_change (snd (detect (detector s) (frame i) (clk i))) = None"
    and c: "\<not> snd (snd (fst (detect (detector s) (frame i) (clk i))))" by simp_all
  have st: "current_status (detector (fst (process_frame s i))) = Available"
    using av by (simp add: process_frame_detector detect_status_field)
  have ls: "last_status_change (detector (fst (process_frame s i))) = None"
    using l by (simp add: process_frame_detector)
  have "CreateActionItem \<notin> set (snd (process_frame s i))"
    using l c
    by (auto simp: process_frame_def Let_def should_trigger_cleaning_def
        split: option.splits prod.splits if_splits)
  with st ls show ?thesis by simp
qed

lemma unchanged_run:
  "current_status (detector s) = Available \<Longrightarrow> last_status_change (detector s) = None \<Longrightarrow>
   stays_available s ticks \<Longrightarrow> CreateActionItem \<notin> set (snd (run s ticks))"
proof (induction ticks arbitrary: s)
  case Nil
  then show ?case by simp
next
  case (Cons i rest)
  from Cons.prems(3) have av: "available_tick s i"
    and rest: "stays_available (fst (process_frame s i)) rest" by simp_all
  from unchanged_tick[OF Cons.prems(1,2) av] Cons.IH[OF _ _ rest]
  show ?case by (simp add: split_beta)
qed

text \<open>
  C10. When \<open>last_status_change\<close> is \<open>None\<close>, \<^verbatim>\<open>should_trigger_cleaning\<close> returns
  false for every cleaning timeout and at every time. Hence a room whose status has
  been \<open>Available\<close> on every tick since the service started never sends an
  action-creation request, however long it runs.
\<close>

theorem no_cleaning_without_recorded_change:
  "(last_status_change d = None \<longrightarrow> \<not> should_trigger_cleaning d timeout now)
   \<and> (stays_available (init_service mt ct minutes) ticks \<longrightarrow>
        CreateActionItem \<notin> set (snd (run (init_service mt ct minutes) ticks)))"
proof -
  have "current_status (detector (init_service mt ct minutes)) = Available"
    and "last_status_change (detector (init_service mt ct minutes)) = None"
    by (simp_all add: init_service_def init_detector_def)
  then show ?thesis
    using unchanged_run never_changed_no_cleaning by blast
qed

theorem no_cleaning_without_recorded_change_witness:
  "last_status_change (init_detector 500 (7 / 10)) = None
   \<and> \<not> should_trigger_cleaning (init_detector 500 (7 / 10)) 5 600
   \<and> stays_available (init_service 500 (7 / 10) 5) idle_ticks
   \<and> CreateActionItem \<notin> set (snd (run (init_service 500 (7 / 10) 5) idle_ticks))"
proof -
  have none: "last_status_change (init_detector 500 (7 / 10)) = None"
    by (simp add: init_detector_def)
  have idle: "stays_available (init_service 500 (7 / 10) 5) idle_ticks"
    by code_simp
  from no_cleaning_without_recorded_change
    [of "init_detector 500 (7 / 10)" 5 600 500 "7 / 10" 5 idle_ticks] none idle
  show ?thesis by blast
qed

end
